theory Spec2Isabelle
  imports Main "HOL-Library.Sublist"
begin

section \<open>Data model of \<^verbatim>\<open>src/utils.ts\<close>\<close>

text \<open>
  Strings are lists of characters. The declarations of \<^verbatim>\<open>./types\<close> are not part of
  the sources; the records below carry the fields that \<^verbatim>\<open>utils.ts\<close> reads and writes.
  Record fields are global names, so the \<^verbatim>\<open>content\<close> of a message is \<open>msgContent\<close> and
  the \<^verbatim>\<open>fileName\<close> of an example is \<open>exFileName\<close>. An optional field (\<^verbatim>\<open>techs?\<close>) is
  an \<open>option\<close>, \<open>None\<close> standing for \<^verbatim>\<open>undefined\<close>.
\<close>

datatype ERole = System | User | Assistant

record IMessage =
  role :: ERole
  msgContent :: string

record IExample =
  exFileName :: string
  code :: string
  tests :: string

record iGetPromptArgs =
  content :: string
  fileName :: string
  techs :: "string list option"
  tips :: "string list option"

text \<open>\<^verbatim>\<open>type IModel = "gpt-3.5-turbo" | "gpt-3.5-turbo-0301" | "gpt-4"\<close>\<close>

datatype IModel = Gpt35Turbo | Gpt35Turbo0301 | Gpt4

record ICompletionRequest =
  model :: IModel
  messages :: "IMessage list"

definition LF :: char where
  "LF = CHR 0x0A"

definition CR :: char where
  "CR = CHR 0x0D"

section \<open>Numbered lists: \<^verbatim>\<open>toList\<close>\<close>

text \<open>
  \<^verbatim>\<open>`${index + 1}`\<close> renders a positive integer in decimal, most significant digit
  first.
\<close>

definition digitChar :: "nat \<Rightarrow> char" where
  "digitChar d = ''0123456789'' ! d"

fun numberToString :: "nat \<Rightarrow> string" where
  "numberToString n =
     (if n < 10 then [digitChar n]
      else numberToString (n div 10) @ [digitChar (n mod 10)])"

declare numberToString.simps [simp del]

text \<open>\<^verbatim>\<open>Array.prototype.map\<close> with the element and its index, counting from \<open>i\<close>.\<close>

fun mapIndexed :: "('a \<Rightarrow> nat \<Rightarrow> 'b) \<Rightarrow> nat \<Rightarrow> 'a list \<Rightarrow> 'b list" where
  "mapIndexed f i [] = []"
| "mapIndexed f i (x # xs) = f x i # mapIndexed f (Suc i) xs"

text \<open>\<^verbatim>\<open>Array.prototype.join\<close>: the separator stands between two elements only.\<close>

fun join :: "string \<Rightarrow> string list \<Rightarrow> string" where
  "join sep [] = []"
| "join sep [x] = x"
| "join sep (x # y # ys) = x @ sep @ join sep (y # ys)"

text \<open>The array that \<^verbatim>\<open>toList\<close> builds before joining it.\<close>

definition numbered :: "string list \<Rightarrow> string list" where
  "numbered arr = mapIndexed (\<lambda>tip index. numberToString (index + 1) @ ''. '' @ tip) 0 arr"

definition toList :: "string list \<Rightarrow> string" where
  "toList arr = join [CR, LF] (numbered arr)"

section \<open>The prompt: \<^verbatim>\<open>getPrompt\<close>\<close>

text \<open>
  The pieces of the template literals, with the line breaks and the indentation that
  the source file has inside the backquotes. \<^verbatim>\<open>techs?.length\<close> is truthy when the array
  is there and not empty.
\<close>

definition techsBlock :: "string list \<Rightarrow> string" where
  "techsBlock ts =
     '' using the following technologies: '' @ [LF] @ ''      '' @ toList ts @ [LF] @ ''    ''"

definition tipsBlock :: "string list \<Rightarrow> string" where
  "tipsBlock ts =
     ''Here are some tips: '' @ [LF] @ ''      '' @ toList ts @ [LF] @ ''    ''"

definition answerRule :: string where
  "answerRule =
     ''Your answer should be only the code block. Start your response with ``` directly and end it with ``` only, don't add any more text.''"

definition contentBlock :: "string \<Rightarrow> string" where
  "contentBlock c =
     ''Here is the file content: '' @ [LF] @ ''    ```'' @ [LF] @ ''    '' @ c @ [LF]
       @ ''    ```'' @ [LF] @ ''  ''"

definition getPrompt :: "iGetPromptArgs \<Rightarrow> string" where
  "getPrompt a =
     (let prompt = ''I need unit tests for a file called '' @ fileName a;
          prompt = (case techs a of
                      None \<Rightarrow> prompt
                    | Some ts \<Rightarrow> if length ts \<noteq> 0 then prompt @ techsBlock ts else prompt);
          prompt = (case tips a of
                      None \<Rightarrow> prompt
                    | Some ts \<Rightarrow> if length ts \<noteq> 0 then prompt @ tipsBlock ts else prompt);
          prompt = prompt @ answerRule;
          prompt = prompt @ contentBlock (content a)
      in prompt)"

section \<open>Few-shot messages and the request\<close>

definition exampleMessages :: "iGetPromptArgs \<Rightarrow> IExample \<Rightarrow> IMessage list" where
  "exampleMessages promptArgs g =
     (let prompt = getPrompt (promptArgs\<lparr>content := code g, fileName := exFileName g\<rparr>)
      in [\<lparr>role = User, msgContent = prompt\<rparr>, \<lparr>role = Assistant, msgContent = tests g\<rparr>])"

definition getExampleMessages :: "iGetPromptArgs \<Rightarrow> IExample list option \<Rightarrow> IMessage list" where
  "getExampleMessages promptArgs examples =
     (case examples of
        None \<Rightarrow> []
      | Some exs \<Rightarrow> concat (map (exampleMessages promptArgs) exs))"

definition systemMessage :: IMessage where
  "systemMessage =
     \<lparr>role = System,
      msgContent = ''You are an assistant that provides unit tests for a given file.''\<rparr>"

definition getCompletionRequest :: "IModel \<Rightarrow> string \<Rightarrow> IMessage list \<Rightarrow> ICompletionRequest" where
  "getCompletionRequest m prompt examples =
     \<lparr>model = m,
      messages = [systemMessage] @ examples @ [\<lparr>role = User, msgContent = prompt\<rparr>]\<rparr>"

section \<open>Effects: the runtime and the trace of actions\<close>

text \<open>
  The program reads a file, calls the completion API, writes a file and logs to the
  console. Each of these actions is an event appended to a trace, and what the world
  answers (the outcome of a read, of a write, of an API call) is given by a runtime
  record. A function of the source becomes a function from the trace so far to how it
  completes, with the trace it leaves.
\<close>

text \<open>A thrown value; the string is what \<^verbatim>\<open>`${err}`\<close> renders.\<close>

datatype jsError = JsError string

fun render :: "jsError \<Rightarrow> string" where
  "render (JsError s) = s"

definition typeError :: jsError where
  "typeError = JsError ''TypeError: Cannot read properties of undefined''"

text \<open>
  How a call completes: it returns a value, it throws (an \<^verbatim>\<open>async\<close> function rejects),
  or the process has ended in \<^verbatim>\<open>process.exit\<close>.
\<close>

datatype 'a completion = Returned 'a | Thrown jsError | Exited nat

text \<open>The \<^verbatim>\<open>chalk\<close> colour of a console line, \<open>Plain\<close> without one.\<close>

datatype colour = Plain | Blue | Green | Red

text \<open>The \<^verbatim>\<open>flag\<close> option of \<^verbatim>\<open>fs.writeFileSync\<close>: \<^verbatim>\<open>"a"\<close> appends, \<^verbatim>\<open>"w"\<close> truncates.\<close>

datatype flag = FlagA | FlagW

text \<open>The client that \<^verbatim>\<open>initOpenAI\<close> builds from the API key.\<close>

record OpenAIApi =
  configApiKey :: string

text \<open>
  The part of a non-streamed response that \<^verbatim>\<open>getTestContent\<close> reads:
  \<^verbatim>\<open>response.data.choices[i].message.content\<close>, the message and its content optional.
\<close>

datatype responseMessage = ResponseMessage (contentOf: "string option")

datatype choice = Choice (message: "responseMessage option")

datatype event =
    ConsoleLog colour string
  | ConsoleError colour string
  | ReadFileSync string
  | WriteFileSync string "string option" flag
  | CreateChatCompletion OpenAIApi ICompletionRequest bool

type_synonym trace = "event list"

text \<open>
  The answers of the world. A write may fail depending on all that happened before, so
  its outcome reads the trace. \<open>jsonDeltaContent\<close> is
  \<^verbatim>\<open>JSON.parse(message).choices[0].delta.content\<close>: it throws (a syntax error, a missing
  property) or gives the token, \<open>None\<close> for \<^verbatim>\<open>undefined\<close> or \<^verbatim>\<open>null\<close>. The streamed response
  is the list of its chunks, each already decoded by \<^verbatim>\<open>toString("utf8")\<close>.
\<close>

record runtime =
  fsReadFileSync :: "string \<Rightarrow> jsError + string"
  fsWriteFileSync :: "trace \<Rightarrow> string \<Rightarrow> string option \<Rightarrow> flag \<Rightarrow> jsError option"
  createChatCompletion :: "OpenAIApi \<Rightarrow> ICompletionRequest \<Rightarrow> jsError + choice list"
  createChatCompletionStream :: "OpenAIApi \<Rightarrow> ICompletionRequest \<Rightarrow> jsError + string list"
  jsonDeltaContent :: "string \<Rightarrow> jsError + string option"

section \<open>Files: \<^verbatim>\<open>readFile\<close> and \<^verbatim>\<open>writeToFile\<close>\<close>

definition readFile :: "runtime \<Rightarrow> string \<Rightarrow> trace \<Rightarrow> string completion \<times> trace" where
  "readFile rt path w =
     (case fsReadFileSync rt path of
        Inr fileContent \<Rightarrow> (Returned fileContent, w @ [ReadFileSync path])
      | Inl err \<Rightarrow>
          (Returned [],
           w @ [ReadFileSync path, ConsoleError Plain (''Error reading file: '' @ render err)]))"

text \<open>\<^verbatim>\<open>append ? "a" : "w"\<close>, the parameter \<^verbatim>\<open>append?\<close> being optional.\<close>

definition flagOf :: "bool option \<Rightarrow> flag" where
  "flagOf append' = (if append' = Some True then FlagA else FlagW)"

definition writeToFile ::
  "runtime \<Rightarrow> string \<Rightarrow> string option \<Rightarrow> bool option \<Rightarrow> trace \<Rightarrow> unit completion \<times> trace" where
  "writeToFile rt path c append' w =
     (case fsWriteFileSync rt w path c (flagOf append') of
        None \<Rightarrow>
          (Returned (),
           w @ [WriteFileSync path c (flagOf append'),
                ConsoleLog Green (''Successfully wrote to file: '' @ path)])
      | Some err \<Rightarrow>
          (Returned (),
           w @ [WriteFileSync path c (flagOf append'),
                ConsoleError Plain (''Error writing to file: '' @ render err)]))"

definition initOpenAI :: "string \<Rightarrow> OpenAIApi" where
  "initOpenAI key = \<lparr>configApiKey = key\<rparr>"

section \<open>The non-streamed answer: \<^verbatim>\<open>getTestContent\<close>\<close>

text \<open>
  \<^verbatim>\<open>content.replace(/^```.*$/gm, "")\<close>. With the flags \<^verbatim>\<open>g\<close> and \<^verbatim>\<open>m\<close>, a match starts at
  the beginning of the text or behind a line terminator, reads three backquotes and then
  every character up to the next line terminator or the end; the terminator stays.
  Of the line terminators of the language, line feed and carriage return are
  characters of this model.
\<close>

definition isLineTerminator :: "char \<Rightarrow> bool" where
  "isLineTerminator c = (c = LF \<or> c = CR)"

definition fence :: string where
  "fence = ''```''"

function replaceFences :: "bool \<Rightarrow> string \<Rightarrow> string" where
  "replaceFences atLineStart [] = []"
| "replaceFences atLineStart (c # cs) =
     (if atLineStart \<and> prefix fence (c # cs)
      then replaceFences False (dropWhile (\<lambda>x. \<not> isLineTerminator x) (drop 3 (c # cs)))
      else c # replaceFences (isLineTerminator c) cs)"
  by pat_completeness auto
termination
  by (relation "measure (\<lambda>(b, s). length s)")
     (auto intro: le_less_trans [OF length_dropWhile_le])

definition getTestContent ::
  "runtime \<Rightarrow> ICompletionRequest \<Rightarrow> OpenAIApi \<Rightarrow> trace \<Rightarrow> string option completion \<times> trace" where
  "getTestContent rt completionRequest openai w =
     (let w1 = w @ [CreateChatCompletion openai completionRequest False]
      in case createChatCompletion rt openai completionRequest of
           Inl err \<Rightarrow> (Thrown err, w1)
         | Inr [] \<Rightarrow> (Thrown typeError, w1)
         | Inr (c # _) \<Rightarrow>
             (case message c of
                None \<Rightarrow> (Thrown typeError, w1)
              | Some m \<Rightarrow> (Returned (map_option (replaceFences True) (contentOf m)), w1)))"

section \<open>The streamed answer: \<^verbatim>\<open>streamTestContent\<close>\<close>

text \<open>\<^verbatim>\<open>String.prototype.split\<close> at one character: a text without it is one piece.\<close>

fun splitAt :: "(char \<Rightarrow> bool) \<Rightarrow> string \<Rightarrow> string list" where
  "splitAt sep [] = [[]]"
| "splitAt sep (c # cs) =
     (if sep c then [] # splitAt sep cs
      else (case splitAt sep cs of
              [] \<Rightarrow> [[c]]
            | l # ls \<Rightarrow> (c # l) # ls))"

text \<open>
  \<^verbatim>\<open>String.prototype.trim\<close> removes white space and line terminators at both ends;
  these are the ones below 256.
\<close>

definition isWhiteSpace :: "char \<Rightarrow> bool" where
  "isWhiteSpace c =
     (c = CHR 0x09 \<or> c = CHR 0x0A \<or> c = CHR 0x0B \<or> c = CHR 0x0C \<or> c = CHR 0x0D
        \<or> c = CHR 0x20 \<or> c = CHR 0xA0)"

definition trim :: "string \<Rightarrow> string" where
  "trim s = rev (dropWhile isWhiteSpace (rev (dropWhile isWhiteSpace s)))"

definition startsWith :: "string \<Rightarrow> string \<Rightarrow> bool" where
  "startsWith s p = prefix p s"

text \<open>The lines of a chunk that the inner loop goes through.\<close>

definition dataLines :: "string \<Rightarrow> string list" where
  "dataLines chunk =
     filter (\<lambda>line. startsWith (trim line) ''data: '') (splitAt (\<lambda>c. c = LF) chunk)"

text \<open>\<^verbatim>\<open>line.replace(/^data: /, "")\<close>: the pattern matches at the very start only.\<close>

definition dataPayload :: "string \<Rightarrow> string" where
  "dataPayload line = (if prefix ''data: '' line then drop 6 line else line)"

text \<open>
  The inner loop over the lines of one chunk. \<open>None\<close>: the loop ran to its end and the
  outer loop goes on; \<open>Some c\<close>: the function is left with completion \<open>c\<close>, through
  \<^verbatim>\<open>return\<close> at the terminator or through a throw. \<^verbatim>\<open>if (token)\<close> is false for
  \<^verbatim>\<open>undefined\<close>, \<^verbatim>\<open>null\<close> and the empty string. The callback works on a state of its own
  type.
\<close>

fun streamLines ::
  "(string \<Rightarrow> jsError + string option) \<Rightarrow> (string \<Rightarrow> 's \<Rightarrow> unit completion \<times> 's) \<Rightarrow>
     string list \<Rightarrow> 's \<Rightarrow> unit completion option \<times> 's" where
  "streamLines parse onToken [] s = (None, s)"
| "streamLines parse onToken (line # rest) s =
     (let msg = dataPayload line
      in if msg = ''[DONE]'' then (Some (Returned ()), s)
         else (case parse msg of
                 Inl err \<Rightarrow> (Some (Thrown err), s)
               | Inr None \<Rightarrow> streamLines parse onToken rest s
               | Inr (Some token) \<Rightarrow>
                   if token \<noteq> []
                   then (case onToken token s of
                           (Returned _, s') \<Rightarrow> streamLines parse onToken rest s'
                         | (Thrown err, s') \<Rightarrow> (Some (Thrown err), s')
                         | (Exited n, s') \<Rightarrow> (Some (Exited n), s'))
                   else streamLines parse onToken rest s))"

text \<open>The outer loop over the chunks of the response.\<close>

fun streamChunks ::
  "(string \<Rightarrow> jsError + string option) \<Rightarrow> (string \<Rightarrow> 's \<Rightarrow> unit completion \<times> 's) \<Rightarrow>
     string list \<Rightarrow> 's \<Rightarrow> unit completion \<times> 's" where
  "streamChunks parse onToken [] s = (Returned (), s)"
| "streamChunks parse onToken (chunk # rest) s =
     (case streamLines parse onToken (dataLines chunk) s of
        (None, s') \<Rightarrow> streamChunks parse onToken rest s'
      | (Some c, s') \<Rightarrow> (c, s'))"

definition streamTestContent ::
  "runtime \<Rightarrow> ICompletionRequest \<Rightarrow> OpenAIApi \<Rightarrow> (string \<Rightarrow> trace \<Rightarrow> unit completion \<times> trace) \<Rightarrow>
     trace \<Rightarrow> unit completion \<times> trace" where
  "streamTestContent rt completionRequest openai onToken w =
     (let w1 = w @ [CreateChatCompletion openai completionRequest True]
      in case createChatCompletionStream rt openai completionRequest of
           Inl err \<Rightarrow> (Thrown err, w1)
         | Inr chunks \<Rightarrow> streamChunks (jsonDeltaContent rt) onToken chunks w1)"

section \<open>The whole run: \<^verbatim>\<open>autoTest\<close>\<close>

record IAutoTestArgs =
  inputFile :: string
  outputFile :: string
  apiKey :: string
  argModel :: IModel
  examples :: "IExample list option"
  argTechs :: "string list option"
  argTips :: "string list option"
  stream :: "bool option"

text \<open>The request that \<^verbatim>\<open>autoTest\<close> sends for a file content.\<close>

definition requestOf :: "IAutoTestArgs \<Rightarrow> string \<Rightarrow> ICompletionRequest" where
  "requestOf args c =
     (let promptArgs = \<lparr>content = c, fileName = inputFile args,
                         techs = argTechs args, tips = argTips args\<rparr>;
          prompt = getPrompt promptArgs;
          exampleMessages = getExampleMessages promptArgs (examples args)
      in getCompletionRequest (argModel args) prompt exampleMessages)"

text \<open>The steps of \<^verbatim>\<open>autoTest\<close> behind the read.\<close>

definition generate :: "runtime \<Rightarrow> IAutoTestArgs \<Rightarrow> string \<Rightarrow> trace \<Rightarrow> unit completion \<times> trace" where
  "generate rt args c w =
     (let w1 = w @ [ConsoleLog Blue ''Generating tests...''];
          openai = initOpenAI (apiKey args);
          completionRequest = requestOf args c
      in if stream args = Some True
         then streamTestContent rt completionRequest openai
                (\<lambda>token. writeToFile rt (outputFile args) (Some token) (Some True)) w1
         else (case getTestContent rt completionRequest openai w1 of
                 (Returned testContent, w2) \<Rightarrow> writeToFile rt (outputFile args) testContent None w2
               | (Thrown err, w2) \<Rightarrow> (Thrown err, w2)
               | (Exited n, w2) \<Rightarrow> (Exited n, w2)))"

definition autoTest :: "runtime \<Rightarrow> IAutoTestArgs \<Rightarrow> trace \<Rightarrow> unit completion \<times> trace" where
  "autoTest rt args w =
     (let w1 = w @ [ConsoleLog Blue ''Reading input file...'']
      in case readFile rt (inputFile args) w1 of
           (Returned c, w2) \<Rightarrow> generate rt args c w2
         | (Thrown err, w2) \<Rightarrow>
             (Exited 1, w2 @ [ConsoleError Red (''Error reading file: '' @ render err)])
         | (Exited n, w2) \<Rightarrow> (Exited n, w2))"

section \<open>Notions for stating the properties\<close>

text \<open>The value of a decimal numeral, to check \<open>numberToString\<close> against.\<close>

definition digitValue :: "char \<Rightarrow> nat" where
  "digitValue c = of_char c - 48"

definition decimalValue :: "string \<Rightarrow> nat" where
  "decimalValue s = foldl (\<lambda>acc c. 10 * acc + digitValue c) 0 s"

text \<open>
  The decimal numeral of a number, as a property of a text: it is not empty, it has
  digits only, it has no leading zero, and its value is the number.
\<close>

definition isDigit :: "char \<Rightarrow> bool" where
  "isDigit c = (c \<in> set ''0123456789'')"

definition isDecimalOf :: "string \<Rightarrow> nat \<Rightarrow> bool" where
  "isDecimalOf d n =
     (d \<noteq> [] \<and> list_all isDigit d \<and> (d = ''0'' \<or> hd d \<noteq> CHR ''0'') \<and> decimalValue d = n)"

text \<open>
  The text that the last fenced block of a prompt encloses, read generously: blank lines
  behind the block are skipped, and a fence is any line that is three backquotes once
  trimmed. \<open>None\<close> when the text does not end with such a block.
\<close>

definition isBlank :: "string \<Rightarrow> bool" where
  "isBlank l = (trim l = [])"

definition isFenceLine :: "string \<Rightarrow> bool" where
  "isFenceLine l = (trim l = fence)"

definition trailingBlock :: "string \<Rightarrow> string option" where
  "trailingBlock p =
     (case dropWhile isBlank (rev (splitAt (\<lambda>c. c = LF) p)) of
        [] \<Rightarrow> None
      | l # earlier \<Rightarrow>
          if isFenceLine l
          then (let body = takeWhile (\<lambda>x. \<not> isFenceLine x) earlier
                in if length body < length earlier then Some (join [LF] (rev body)) else None)
          else None)"

text \<open>A line as the replacement of \<^verbatim>\<open>getTestContent\<close> leaves it.\<close>

definition blankFence :: "string \<Rightarrow> string" where
  "blankFence l = (if prefix fence l then [] else l)"

text \<open>
  The messages of a stream in the order in which the two loops meet them, those in front
  of the first terminator, and the tokens that a list of messages carries.
\<close>

definition payloads :: "string list \<Rightarrow> string list" where
  "payloads chunks = map dataPayload (concat (map dataLines chunks))"

definition beforeDone :: "string list \<Rightarrow> string list" where
  "beforeDone msgs = takeWhile (\<lambda>m. m \<noteq> ''[DONE]'') msgs"

definition decodes :: "(string \<Rightarrow> jsError + string option) \<Rightarrow> string \<Rightarrow> bool" where
  "decodes parse m = (case parse m of Inl err \<Rightarrow> False | Inr token \<Rightarrow> True)"

definition tokenOf :: "(string \<Rightarrow> jsError + string option) \<Rightarrow> string \<Rightarrow> string list" where
  "tokenOf parse m =
     (case parse m of
        Inl err \<Rightarrow> []
      | Inr None \<Rightarrow> []
      | Inr (Some t) \<Rightarrow> if t \<noteq> [] then [t] else [])"

definition tokensOf :: "(string \<Rightarrow> jsError + string option) \<Rightarrow> string list \<Rightarrow> string list" where
  "tokensOf parse msgs = concat (map (tokenOf parse) msgs)"

text \<open>
  The messages that the loops get through: those in front of the first terminator and of
  the first message that does not decode; and how the function ends behind them.
\<close>

definition handled :: "(string \<Rightarrow> jsError + string option) \<Rightarrow> string list \<Rightarrow> string list" where
  "handled parse msgs = takeWhile (\<lambda>m. m \<noteq> ''[DONE]'' \<and> decodes parse m) msgs"

definition stopOf :: "(string \<Rightarrow> jsError + string option) \<Rightarrow> string list \<Rightarrow> unit completion" where
  "stopOf parse msgs =
     (case dropWhile (\<lambda>m. m \<noteq> ''[DONE]'' \<and> decodes parse m) msgs of
        [] \<Rightarrow> Returned ()
      | m # _ \<Rightarrow>
          if m = ''[DONE]'' then Returned ()
          else (case parse m of Inl err \<Rightarrow> Thrown err | Inr token \<Rightarrow> Returned ()))"

text \<open>
  Calling \<open>onToken\<close> on the tokens of a list, one after the other, for as long as it
  returns.
\<close>

fun deliver ::
  "(string \<Rightarrow> 's \<Rightarrow> unit completion \<times> 's) \<Rightarrow> string list \<Rightarrow> 's \<Rightarrow> unit completion \<times> 's" where
  "deliver onToken [] s = (Returned (), s)"
| "deliver onToken (t # ts) s =
     (case onToken t s of
        (Returned _, s') \<Rightarrow> deliver onToken ts s'
      | (Thrown err, s') \<Rightarrow> (Thrown err, s')
      | (Exited n, s') \<Rightarrow> (Exited n, s'))"

text \<open>The writes of a trace, in order.\<close>

fun isWrite :: "event \<Rightarrow> bool" where
  "isWrite (WriteFileSync p c f) = True"
| "isWrite e = False"

definition writesOf :: "trace \<Rightarrow> event list" where
  "writesOf w = filter isWrite w"

text \<open>
  What \<^verbatim>\<open>autoTest\<close> goes on with behind the read, the writes that the answer of the API
  leads to, and the completion it leads to. None of them looks at the outcome of a
  write.
\<close>

definition inputOf :: "runtime \<Rightarrow> IAutoTestArgs \<Rightarrow> string" where
  "inputOf rt args = (case fsReadFileSync rt (inputFile args) of Inl err \<Rightarrow> [] | Inr c \<Rightarrow> c)"

definition writesBy :: "runtime \<Rightarrow> IAutoTestArgs \<Rightarrow> string \<Rightarrow> event list" where
  "writesBy rt args c =
     (if stream args = Some True
      then (case createChatCompletionStream rt (initOpenAI (apiKey args)) (requestOf args c) of
              Inl err \<Rightarrow> []
            | Inr chunks \<Rightarrow>
                map (\<lambda>t. WriteFileSync (outputFile args) (Some t) FlagA)
                  (tokensOf (jsonDeltaContent rt) (handled (jsonDeltaContent rt) (payloads chunks))))
      else (case createChatCompletion rt (initOpenAI (apiKey args)) (requestOf args c) of
              Inl err \<Rightarrow> []
            | Inr [] \<Rightarrow> []
            | Inr (ch # _) \<Rightarrow>
                (case message ch of
                   None \<Rightarrow> []
                 | Some m \<Rightarrow>
                     [WriteFileSync (outputFile args)
                        (map_option (replaceFences True) (contentOf m)) FlagW])))"

definition completionBy :: "runtime \<Rightarrow> IAutoTestArgs \<Rightarrow> string \<Rightarrow> unit completion" where
  "completionBy rt args c =
     (if stream args = Some True
      then (case createChatCompletionStream rt (initOpenAI (apiKey args)) (requestOf args c) of
              Inl err \<Rightarrow> Thrown err
            | Inr chunks \<Rightarrow> stopOf (jsonDeltaContent rt) (payloads chunks))
      else (case createChatCompletion rt (initOpenAI (apiKey args)) (requestOf args c) of
              Inl err \<Rightarrow> Thrown err
            | Inr [] \<Rightarrow> Thrown typeError
            | Inr (ch # _) \<Rightarrow>
                (case message ch of None \<Rightarrow> Thrown typeError | Some m \<Rightarrow> Returned ())))"

section \<open>Sample inputs\<close>

definition samplePromptArgs :: iGetPromptArgs where
  "samplePromptArgs = \<lparr>content = ''x'', fileName = ''a.ts'', techs = None, tips = None\<rparr>"

definition listedPromptArgs :: iGetPromptArgs where
  "listedPromptArgs =
     \<lparr>content = ''x'', fileName = ''a.ts'',
      techs = Some [''jest'', ''ts''], tips = Some [''mock fs'']\<rparr>"

definition elevenTips :: "string list" where
  "elevenTips = [''a'', ''b'', ''c'', ''d'', ''e'', ''f'', ''g'', ''h'', ''i'', ''j'', ''k'']"

definition sampleExample :: IExample where
  "sampleExample = \<lparr>exFileName = ''sum.ts'', code = ''a + b'', tests = ''expect(3)''\<rparr>"

definition sampleArgs :: IAutoTestArgs where
  "sampleArgs =
     \<lparr>inputFile = ''a.ts'', outputFile = ''a.test.ts'', apiKey = ''key'', argModel = Gpt4,
      examples = None, argTechs = None, argTips = None, stream = None\<rparr>"

definition streamArgs :: IAutoTestArgs where
  "streamArgs = sampleArgs\<lparr>stream := Some True\<rparr>"

text \<open>Three deltas of a streamed answer: one without a token and two with one.\<close>

definition deltaRole :: string where
  \<open>deltaRole = ''{"choices":[{"delta":{"role":"assistant"}}]}''\<close>

definition deltaHi :: string where
  \<open>deltaHi = ''{"choices":[{"delta":{"content":"Hi"}}]}''\<close>

definition deltaBang :: string where
  \<open>deltaBang = ''{"choices":[{"delta":{"content":"!"}}]}''\<close>

text \<open>
  \<^verbatim>\<open>JSON.parse(message).choices[0].delta.content\<close> on the messages of the samples: the
  three deltas above, and otherwise a delta that was cut in two, which is no JSON text.
\<close>

definition jsonSample :: "string \<Rightarrow> jsError + string option" where
  "jsonSample m =
     (if m = deltaRole then Inr None
      else if m = deltaHi then Inr (Some ''Hi'')
      else if m = deltaBang then Inr (Some ''!'')
      else Inl (JsError ''SyntaxError: Unexpected end of JSON input''))"

text \<open>A stream of two chunks with its terminator, and a data line behind the terminator.\<close>

definition wholeChunks :: "string list" where
  "wholeChunks =
     [''data: '' @ deltaRole @ [LF, LF] @ ''data: '' @ deltaHi @ [LF, LF],
      ''data: '' @ deltaBang @ [LF, LF] @ ''data: [DONE]'' @ [LF, LF]
        @ ''data: '' @ deltaHi @ [LF, LF]]"

text \<open>A stream whose second delta arrives in two chunks.\<close>

definition cutChunks :: "string list" where
  \<open>cutChunks =
     [''data: '' @ deltaHi @ [LF, LF] @ ''data: {"choices":[{"del'',
      ''ta":{"content":"!"}}]}'' @ [LF, LF] @ ''data: '' @ deltaBang @ [LF, LF]
        @ ''data: [DONE]'' @ [LF, LF]]\<close>

text \<open>A runtime where everything works, with an answer in a fenced block.\<close>

definition fencedAnswer :: string where
  "fencedAnswer = ''```ts'' @ [LF] @ ''test(1)'' @ [LF] @ ''```''"

definition working :: runtime where
  "working =
     \<lparr>fsReadFileSync = (\<lambda>path. Inr ''x''),
      fsWriteFileSync = (\<lambda>w path c f. None),
      createChatCompletion =
        (\<lambda>openai request. Inr [Choice (Some (ResponseMessage (Some fencedAnswer)))]),
      createChatCompletionStream = (\<lambda>openai request. Inr wholeChunks),
      jsonDeltaContent = jsonSample\<rparr>"

text \<open>The same with an input file that is not there, with a disk that refuses every
  write, and with the stream that is cut inside a delta.\<close>

definition missingFile :: runtime where
  "missingFile =
     working\<lparr>fsReadFileSync :=
       (\<lambda>path. Inl (JsError ''Error: ENOENT: no such file or directory''))\<rparr>"

definition readOnlyDisk :: runtime where
  "readOnlyDisk =
     working\<lparr>fsWriteFileSync :=
       (\<lambda>w path c f. Some (JsError ''Error: EACCES: permission denied''))\<rparr>"

definition cutStream :: runtime where
  "cutStream = working\<lparr>createChatCompletionStream := (\<lambda>openai request. Inr cutChunks)\<rparr>"

text \<open>A callback that notes its token on the console.\<close>

definition logToken :: "string \<Rightarrow> trace \<Rightarrow> unit completion \<times> trace" where
  "logToken token w = (Returned (), w @ [ConsoleLog Plain token])"

section \<open>Lemmas on lists and numerals\<close>

lemma mapIndexed_length: "length (mapIndexed f i xs) = length xs"
  by (induction xs arbitrary: i) auto

lemma mapIndexed_nth: "k < length xs \<Longrightarrow> mapIndexed f i xs ! k = f (xs ! k) (i + k)"
proof (induction xs arbitrary: i k)
  case Nil
  then show ?case by simp
next
  case (Cons x xs)
  then show ?case by (cases k) auto
qed

lemma numbered_nth:
  "length (numbered arr) = length arr \<and>
   (\<forall>i < length arr. numbered arr ! i = numberToString (i + 1) @ ''. '' @ arr ! i)"
  by (simp add: numbered_def mapIndexed_length mapIndexed_nth)

lemma join_concat:
  "join sep xs =
     concat (map (\<lambda>k. xs ! k @ (if k + 1 < length xs then sep else [])) [0..<length xs])"
proof (induction sep xs rule: join.induct)
  case (1 sep)
  show ?case by simp
next
  case (2 sep x)
  show ?case by simp
next
  case (3 sep x y ys)
  have "[0..<length (x # y # ys)] = 0 # map Suc [0..<length (y # ys)]"
    by (simp add: upt_conv_Cons map_Suc_upt del: upt_Suc)
  then show ?case using 3 by (simp add: comp_def del: upt_Suc)
qed

text \<open>\<open>numberToString\<close> writes the decimal numeral of its argument.\<close>

lemma digitValue_digitChar: "d < 10 \<Longrightarrow> digitValue (digitChar d) = d"
proof -
  assume "d < 10"
  then have "d \<in> {0, 1, 2, 3, 4, 5, 6, 7, 8, 9}" by auto
  then show ?thesis by (auto simp: digitValue_def digitChar_def)
qed

lemma decimalValue_snoc: "decimalValue (s @ [c]) = 10 * decimalValue s + digitValue c"
  by (simp add: decimalValue_def)

lemma decimalValue_numberToString: "decimalValue (numberToString n) = n"
proof (induction n rule: numberToString.induct)
  case (1 n)
  show ?case
  proof (cases "n < 10")
    case True
    then show ?thesis
      by (simp add: numberToString.simps [of n] decimalValue_def digitValue_digitChar)
  next
    case False
    then show ?thesis using 1
      by (simp add: numberToString.simps [of n] decimalValue_snoc digitValue_digitChar)
  qed
qed

text \<open>
  The text of \<open>numberToString\<close> is the decimal numeral of its argument, and a number has
  one decimal numeral only.
\<close>

lemma digitChar_facts:
  "d < 10 \<Longrightarrow> isDigit (digitChar d) \<and> digitValue (digitChar d) = d \<and>
     (digitChar d = CHR ''0'' \<longleftrightarrow> d = 0)"
proof -
  assume "d < 10"
  then have "d \<in> {0, 1, 2, 3, 4, 5, 6, 7, 8, 9}" by auto
  then show ?thesis by (auto simp: digitValue_def digitChar_def isDigit_def)
qed

lemma isDigit_value: "isDigit c \<Longrightarrow> digitValue c < 10 \<and> c = digitChar (digitValue c)"
  by (auto simp: isDigit_def digitValue_def digitChar_def)

lemma decimalValue_Nil: "decimalValue [] = 0"
  by (simp add: decimalValue_def)

lemma decimalValue_positive:
  "s \<noteq> [] \<Longrightarrow> list_all isDigit s \<Longrightarrow> hd s \<noteq> CHR ''0'' \<Longrightarrow> 0 < decimalValue s"
proof (induction s rule: rev_induct)
  case Nil
  then show ?case by simp
next
  case (snoc c s)
  show ?case
  proof (cases "s = []")
    case True
    with snoc.prems have "isDigit c" "c \<noteq> CHR ''0''" by simp_all
    then have "digitValue c \<noteq> 0"
      using isDigit_value [of c] digitChar_facts [of "digitValue c"] by auto
    with True show ?thesis by (simp add: decimalValue_def)
  next
    case False
    with snoc have "0 < decimalValue s" by simp
    then show ?thesis by (simp add: decimalValue_snoc)
  qed
qed

lemma numberToString_decimal: "isDecimalOf (numberToString n) n"
proof (induction n rule: numberToString.induct)
  case (1 n)
  show ?case
  proof (cases "n < 10")
    case True
    then show ?thesis
      using digitChar_facts [of n]
      by (auto simp: numberToString.simps [of n] isDecimalOf_def decimalValue_def digitChar_def)
  next
    case False
    let ?h = "numberToString (n div 10)"
    from False 1 have ih: "isDecimalOf ?h (n div 10)" by simp
    have m: "n mod 10 < 10" by simp
    from False have "0 < n div 10" by (simp add: div_greater_zero_iff)
    with ih have "?h \<noteq> ''0''"
      by (auto simp: isDecimalOf_def decimalValue_def digitValue_def)
    with ih have "hd ?h \<noteq> CHR ''0''" "?h \<noteq> []" by (auto simp: isDecimalOf_def)
    then show ?thesis
      using False ih digitChar_facts [OF m]
      by (simp add: numberToString.simps [of n] isDecimalOf_def decimalValue_snoc)
  qed
qed

lemma isDecimalOf_unique: "isDecimalOf d n \<Longrightarrow> isDecimalOf d' n \<Longrightarrow> d = d'"
proof (induction d arbitrary: d' n rule: rev_induct)
  case Nil
  then show ?case by (simp add: isDecimalOf_def)
next
  case (snoc c ds)
  from snoc.prems(2) have "d' \<noteq> []" by (simp add: isDecimalOf_def)
  then obtain ds' c' where d': "d' = ds' @ [c']" by (metis rev_exhaust)
  from snoc.prems have dig: "isDigit c" "isDigit c'" "list_all isDigit ds" "list_all isDigit ds'"
    by (simp_all add: isDecimalOf_def d')
  from snoc.prems have "10 * decimalValue ds + digitValue c = 10 * decimalValue ds' + digitValue c'"
    by (simp add: isDecimalOf_def d' decimalValue_snoc)
  moreover have "digitValue c < 10" "digitValue c' < 10"
    using dig isDigit_value by blast+
  ultimately have v: "decimalValue ds = decimalValue ds'" and "digitValue c = digitValue c'"
    by presburger+
  then have c: "c = c'" using dig isDigit_value by metis
  have lead: "xs \<noteq> [] \<Longrightarrow> isDecimalOf (xs @ [x]) n \<Longrightarrow> hd xs \<noteq> CHR ''0''" for xs x
    by (cases xs) (auto simp: isDecimalOf_def)
  show ?case
  proof (cases "ds = []")
    case True
    then have "decimalValue ds' = 0" using v by (simp add: decimalValue_Nil)
    then have "ds' = []"
      using decimalValue_positive [of ds'] dig(4) lead [of ds' c'] snoc.prems(2) d' by fastforce
    with True c d' show ?thesis by simp
  next
    case False
    then have pos: "0 < decimalValue ds"
      using decimalValue_positive [of ds] dig(3) lead [of ds c] snoc.prems(1) by blast
    then have ne: "ds' \<noteq> []" using v by (auto simp: decimalValue_Nil)
    have "isDecimalOf ds (decimalValue ds)"
      using False dig(3) lead [of ds c] snoc.prems(1) by (simp add: isDecimalOf_def)
    moreover have "isDecimalOf ds' (decimalValue ds)"
      using ne dig(4) lead [of ds' c'] snoc.prems(2) d' v by (simp add: isDecimalOf_def)
    ultimately have "ds = ds'" by (rule snoc.IH)
    with c d' show ?thesis by simp
  qed
qed

lemma elevenTips_entries:
  "concat (map (\<lambda>i. numberToString (i + 1) @ ''. '' @ elevenTips ! i @
                        (if i + 1 < length elevenTips then [CR, LF] else []))
                 [0..<length elevenTips]) =
   ''1. a'' @ [CR, LF] @ ''2. b'' @ [CR, LF] @ ''3. c'' @ [CR, LF] @ ''4. d'' @ [CR, LF]
     @ ''5. e'' @ [CR, LF] @ ''6. f'' @ [CR, LF] @ ''7. g'' @ [CR, LF] @ ''8. h'' @ [CR, LF]
     @ ''9. i'' @ [CR, LF] @ ''10. j'' @ [CR, LF] @ ''11. k''"
  by code_simp

section \<open>The prompt\<close>

lemma getPrompt_lists:
  assumes "techs a = Some ts" "ts \<noteq> []" "tips a = Some ps" "ps \<noteq> []"
  shows "getPrompt a =
     ''I need unit tests for a file called '' @ fileName a
       @ '' using the following technologies: '' @ [LF] @ ''      '' @ toList ts @ [LF] @ ''    ''
       @ ''Here are some tips: '' @ [LF] @ ''      '' @ toList ps @ [LF] @ ''    ''
       @ answerRule @ contentBlock (content a)"
  using assms by (simp add: getPrompt_def techsBlock_def tipsBlock_def)

lemma getPrompt_starts:
  "prefix (''I need unit tests for a file called '' @ fileName a) (getPrompt a)"
  by (auto simp: getPrompt_def Let_def prefix_def split: option.splits)

lemma getPrompt_ends: "suffix (contentBlock (content a)) (getPrompt a)"
  by (auto simp: getPrompt_def Let_def suffix_def split: option.splits)

text \<open>
  C2, as the code has it. For every prompt-argument record, the string of \<^verbatim>\<open>getPrompt\<close>
  starts with the sentence that names the file, so it contains \<open>fileName\<close>, and it ends
  with a block of the template's own shape: a line of four spaces and three backquotes,
  a line of four spaces followed by the content, a line of four spaces and three
  backquotes, and a last line of two spaces.
\<close>

theorem getPrompt_indented_block:
  "prefix (''I need unit tests for a file called '' @ fileName a) (getPrompt a) \<and>
   suffix (''    ```'' @ [LF] @ ''    '' @ content a @ [LF] @ ''    ```'' @ [LF] @ ''  '')
     (getPrompt a)"
proof
  show "prefix (''I need unit tests for a file called '' @ fileName a) (getPrompt a)"
    by (rule getPrompt_starts)
  have "suffix (''    ```'' @ [LF] @ ''    '' @ content a @ [LF] @ ''    ```'' @ [LF] @ ''  '')
          (contentBlock (content a))"
    unfolding contentBlock_def suffix_def
    by (intro exI [of _ "''Here is the file content: '' @ [LF]"]) simp
  then show "suffix (''    ```'' @ [LF] @ ''    '' @ content a @ [LF] @ ''    ```'' @ [LF] @ ''  '')
      (getPrompt a)"
    using getPrompt_ends by (rule suffix_order.trans)
qed

text \<open>
  C2, as the claim states it, fails: for the content \<open>x\<close> the last fenced block of the
  prompt encloses \<open>x\<close> behind four spaces, also when the fences may be indented and blank
  lines may follow, and the prompt does not end with the plain block.
\<close>

theorem getPrompt_block_counterexample:
  "trailingBlock (getPrompt samplePromptArgs) = Some ''    x'' \<and>
   trailingBlock (getPrompt samplePromptArgs) \<noteq> Some (content samplePromptArgs) \<and>
   \<not> suffix (''```'' @ [LF] @ content samplePromptArgs @ [LF] @ ''```'')
       (getPrompt samplePromptArgs)"
  by code_simp

text \<open>
  C5. The list that \<^verbatim>\<open>toList\<close> renders counts from one: it is, for \<open>i\<close> from \<open>0\<close> below
  the length, the decimal numeral of \<open>i + 1\<close>, a full stop, a space and the element at
  index \<open>i\<close>, with a carriage return and a line feed between two entries. The numeral
  that \<open>numberToString\<close> writes for a number is its decimal numeral and no other text is:
  digits only, no leading zero, the number as its value. For non-empty technologies and
  tips the prompt carries the two lists so rendered.
\<close>

theorem toList_one_indexed:
  "toList arr =
     concat (map (\<lambda>i. numberToString (i + 1) @ ''. '' @ arr ! i @
                        (if i + 1 < length arr then [CR, LF] else []))
                 [0..<length arr]) \<and>
   (isDecimalOf d n \<longleftrightarrow> d = numberToString n) \<and>
   (techs a = Some ts \<and> ts \<noteq> [] \<and> tips a = Some ps \<and> ps \<noteq> [] \<longrightarrow>
      getPrompt a =
        ''I need unit tests for a file called '' @ fileName a
          @ '' using the following technologies: '' @ [LF] @ ''      '' @ toList ts @ [LF] @ ''    ''
          @ ''Here are some tips: '' @ [LF] @ ''      '' @ toList ps @ [LF] @ ''    ''
          @ answerRule @ contentBlock (content a))"
proof (intro conjI)
  have "toList arr =
      concat (map (\<lambda>k. numbered arr ! k @ (if k + 1 < length (numbered arr) then [CR, LF] else []))
                  [0..<length (numbered arr)])"
    unfolding toList_def by (rule join_concat)
  also have "\<dots> = concat (map (\<lambda>i. numberToString (i + 1) @ ''. '' @ arr ! i @
                        (if i + 1 < length arr then [CR, LF] else []))
                 [0..<length arr])"
    using numbered_nth [of arr] by (intro arg_cong [where f = concat]) (auto intro!: map_cong)
  finally show "toList arr =
     concat (map (\<lambda>i. numberToString (i + 1) @ ''. '' @ arr ! i @
                        (if i + 1 < length arr then [CR, LF] else []))
                 [0..<length arr])" .
  show "isDecimalOf d n \<longleftrightarrow> d = numberToString n"
    using numberToString_decimal isDecimalOf_unique by blast
  show "techs a = Some ts \<and> ts \<noteq> [] \<and> tips a = Some ps \<and> ps \<noteq> [] \<longrightarrow>
      getPrompt a =
        ''I need unit tests for a file called '' @ fileName a
          @ '' using the following technologies: '' @ [LF] @ ''      '' @ toList ts @ [LF] @ ''    ''
          @ ''Here are some tips: '' @ [LF] @ ''      '' @ toList ps @ [LF] @ ''    ''
          @ answerRule @ contentBlock (content a)"
    using getPrompt_lists [of a ts ps] by blast
qed

theorem toList_one_indexed_witness:
  "toList [''jest'', ''ts''] = ''1. jest'' @ [CR, LF] @ ''2. ts'' \<and>
   toList elevenTips =
     ''1. a'' @ [CR, LF] @ ''2. b'' @ [CR, LF] @ ''3. c'' @ [CR, LF] @ ''4. d'' @ [CR, LF]
       @ ''5. e'' @ [CR, LF] @ ''6. f'' @ [CR, LF] @ ''7. g'' @ [CR, LF] @ ''8. h'' @ [CR, LF]
       @ ''9. i'' @ [CR, LF] @ ''10. j'' @ [CR, LF] @ ''11. k'' \<and>
   isDecimalOf ''10'' 10 \<and> isDecimalOf ''11'' 11 \<and> numberToString 10 = ''10'' \<and>
   techs listedPromptArgs = Some [''jest'', ''ts''] \<and> tips listedPromptArgs = Some [''mock fs''] \<and>
   getPrompt listedPromptArgs =
     ''I need unit tests for a file called a.ts using the following technologies: '' @ [LF]
       @ ''      1. jest'' @ [CR, LF] @ ''2. ts'' @ [LF]
       @ ''    Here are some tips: '' @ [LF] @ ''      1. mock fs'' @ [LF] @ ''    ''
       @ answerRule @ contentBlock ''x''"
proof -
  have one: "numberToString (Suc 0) = ''1''" and two: "numberToString (Suc (Suc 0)) = ''2''"
    by (simp_all add: numberToString.simps digitChar_def)
  have l2: "[0..<2] = [0, Suc 0]" by (simp add: upt_conv_Cons)
  have t: "toList [''jest'', ''ts''] = ''1. jest'' @ [CR, LF] @ ''2. ts''"
    using toList_one_indexed [of "[''jest'', ''ts'']" "[]" 0 listedPromptArgs "[]" "[]",
        THEN conjunct1]
    by (simp add: l2 one two)
  have e: "toList elevenTips =
     ''1. a'' @ [CR, LF] @ ''2. b'' @ [CR, LF] @ ''3. c'' @ [CR, LF] @ ''4. d'' @ [CR, LF]
       @ ''5. e'' @ [CR, LF] @ ''6. f'' @ [CR, LF] @ ''7. g'' @ [CR, LF] @ ''8. h'' @ [CR, LF]
       @ ''9. i'' @ [CR, LF] @ ''10. j'' @ [CR, LF] @ ''11. k''"
    using toList_one_indexed [of elevenTips "[]" 0 listedPromptArgs "[]" "[]", THEN conjunct1]
    by (simp only: elevenTips_entries)
  have n: "numberToString 10 = ''10''" "numberToString 11 = ''11''"
    by code_simp+
  have d: "isDecimalOf ''10'' 10" "isDecimalOf ''11'' 11"
    using toList_one_indexed [of "[]" "''10''" 10 listedPromptArgs "[]" "[]"]
      toList_one_indexed [of "[]" "''11''" 11 listedPromptArgs "[]" "[]"]
    by (simp_all only: n)
  have p: "toList [''mock fs''] = ''1. mock fs''"
    using toList_one_indexed [of "[''mock fs'']" "[]" 0 listedPromptArgs "[]" "[]", THEN conjunct1]
    by (simp add: one)
  have g: "techs listedPromptArgs = Some [''jest'', ''ts''] \<and> [''jest'', ''ts''] \<noteq> [] \<and>
      tips listedPromptArgs = Some [''mock fs''] \<and> [''mock fs''] \<noteq> []"
    by (simp add: listedPromptArgs_def)
  have "getPrompt listedPromptArgs =
        ''I need unit tests for a file called '' @ fileName listedPromptArgs
          @ '' using the following technologies: '' @ [LF] @ ''      '' @ toList [''jest'', ''ts'']
          @ [LF] @ ''    '' @ ''Here are some tips: '' @ [LF] @ ''      '' @ toList [''mock fs'']
          @ [LF] @ ''    '' @ answerRule @ contentBlock (content listedPromptArgs)"
    using toList_one_indexed [of "[]" "[]" 0 listedPromptArgs "[''jest'', ''ts'']" "[''mock fs'']",
        THEN conjunct2, THEN conjunct2] g by (rule mp)
  then have "getPrompt listedPromptArgs =
     ''I need unit tests for a file called a.ts using the following technologies: '' @ [LF]
       @ ''      1. jest'' @ [CR, LF] @ ''2. ts'' @ [LF]
       @ ''    Here are some tips: '' @ [LF] @ ''      1. mock fs'' @ [LF] @ ''    ''
       @ answerRule @ contentBlock ''x''"
    using t by (simp add: p listedPromptArgs_def)
  with g t e d n(1) show ?thesis by blast
qed

section \<open>Few-shot messages and the request\<close>

lemma exampleMessages_length:
  "length (concat (map (exampleMessages a) exs)) = 2 * length exs"
  by (induction exs) (auto simp: exampleMessages_def Let_def)

lemma exampleMessages_nth:
  "i < length exs \<Longrightarrow>
   concat (map (exampleMessages a) exs) ! (2 * i) = exampleMessages a (exs ! i) ! 0 \<and>
   concat (map (exampleMessages a) exs) ! (2 * i + 1) = exampleMessages a (exs ! i) ! 1"
proof (induction exs arbitrary: i)
  case Nil
  then show ?case by simp
next
  case (Cons e es)
  show ?case
  proof (cases i)
    case 0
    then show ?thesis by (simp add: exampleMessages_def Let_def)
  next
    case (Suc j)
    with Cons.prems have "j < length es" by simp
    from Cons.IH [OF this] Suc show ?thesis
      by (simp add: exampleMessages_def Let_def)
  qed
qed

text \<open>
  C10. For every prompt-argument record and every list of \<open>n\<close> examples,
  \<^verbatim>\<open>getExampleMessages\<close> returns \<open>2n\<close> messages: at \<open>2i\<close> a user message whose content is
  \<^verbatim>\<open>getPrompt\<close> of the record with the code and the file name of example \<open>i\<close>, and right
  behind it an assistant message whose content is the tests of that example. Without a
  list of examples it returns the empty list.
\<close>

theorem getExampleMessages_pairs:
  "getExampleMessages a None = [] \<and>
   length (getExampleMessages a (Some exs)) = 2 * length exs \<and>
   (\<forall>i < length exs.
      getExampleMessages a (Some exs) ! (2 * i) =
        \<lparr>role = User,
         msgContent =
           getPrompt (a\<lparr>content := code (exs ! i), fileName := exFileName (exs ! i)\<rparr>)\<rparr> \<and>
      getExampleMessages a (Some exs) ! (2 * i + 1) =
        \<lparr>role = Assistant, msgContent = tests (exs ! i)\<rparr>)"
  using exampleMessages_nth [of _ exs a]
  by (simp add: getExampleMessages_def exampleMessages_length exampleMessages_def Let_def)

theorem getExampleMessages_pairs_witness:
  "(0::nat) < length [sampleExample] \<and>
   length (getExampleMessages samplePromptArgs (Some [sampleExample])) = 2 \<and>
   getExampleMessages samplePromptArgs (Some [sampleExample]) ! 0 =
     \<lparr>role = User,
      msgContent = getPrompt \<lparr>content = ''a + b'', fileName = ''sum.ts'', techs = None, tips = None\<rparr>\<rparr> \<and>
   getExampleMessages samplePromptArgs (Some [sampleExample]) ! 1 =
     \<lparr>role = Assistant, msgContent = ''expect(3)''\<rparr>"
  using getExampleMessages_pairs [of samplePromptArgs "[sampleExample]"]
  by (simp add: samplePromptArgs_def sampleExample_def)


section \<open>Reading and writing files\<close>

lemma readFile_returns:
  "readFile rt p w =
     (Returned (case fsReadFileSync rt p of Inl err \<Rightarrow> [] | Inr c \<Rightarrow> c),
      w @ ReadFileSync p #
        (case fsReadFileSync rt p of
           Inl err \<Rightarrow> [ConsoleError Plain (''Error reading file: '' @ render err)]
         | Inr c \<Rightarrow> []))"
  by (simp add: readFile_def split: sum.splits)

lemma writeToFile_returns: "fst (writeToFile rt p c a w) = Returned ()"
  by (simp add: writeToFile_def split: option.splits)

lemma writeToFile_writes:
  "writesOf (snd (writeToFile rt p c a w)) = writesOf w @ [WriteFileSync p c (flagOf a)]"
  by (simp add: writeToFile_def writesOf_def split: option.splits)

text \<open>
  C9. For every path, when the read of the file throws, \<^verbatim>\<open>readFile\<close> logs the error and
  returns the empty string: it does not throw, and its value is the one that it returns
  for an empty file, in whatever runtime and behind whatever trace that file is read.
\<close>

theorem readFile_failure_is_empty:
  "fsReadFileSync rt path = Inl err \<Longrightarrow> fsReadFileSync rt' path = Inr [] \<Longrightarrow>
   readFile rt path w =
     (Returned [],
      w @ [ReadFileSync path, ConsoleError Plain (''Error reading file: '' @ render err)]) \<and>
   fst (readFile rt path w) = fst (readFile rt' path w')"
  by (simp add: readFile_def)

theorem readFile_failure_is_empty_witness:
  "fsReadFileSync missingFile ''a.ts'' = Inl (JsError ''Error: ENOENT: no such file or directory'') \<and>
   fsReadFileSync (working\<lparr>fsReadFileSync := (\<lambda>path. Inr [])\<rparr>) ''a.ts'' = Inr [] \<and>
   readFile missingFile ''a.ts'' [] =
     (Returned [],
      [ReadFileSync ''a.ts'',
       ConsoleError Plain ''Error reading file: Error: ENOENT: no such file or directory'']) \<and>
   fst (readFile missingFile ''a.ts'' []) =
     fst (readFile (working\<lparr>fsReadFileSync := (\<lambda>path. Inr [])\<rparr>) ''a.ts'' [])"
proof -
  have h1: "fsReadFileSync missingFile ''a.ts'' =
      Inl (JsError ''Error: ENOENT: no such file or directory'')"
    by (simp add: missingFile_def)
  have h2: "fsReadFileSync (working\<lparr>fsReadFileSync := (\<lambda>path. Inr [])\<rparr>) ''a.ts'' = Inr []"
    by simp
  from readFile_failure_is_empty [OF h1 h2, of "[]" "[]"] h1 h2 show ?thesis
    by (simp add: readFile_def)
qed

section \<open>The non-streamed answer\<close>

lemma splitAt_not_Nil [simp]: "splitAt sep s \<noteq> []"
  by (induction s) (auto split: list.splits)

lemma splitAt_unfold:
  "splitAt sep s =
     takeWhile (\<lambda>x. \<not> sep x) s #
       (case dropWhile (\<lambda>x. \<not> sep x) s of [] \<Rightarrow> [] | t # r \<Rightarrow> splitAt sep r)"
  by (induction s) (auto split: list.splits)

lemma splitAt_line:
  "\<forall>x \<in> set l. \<not> sep x \<Longrightarrow> r = [] \<or> sep (hd r) \<Longrightarrow>
   splitAt sep (l @ r) = l # (case r of [] \<Rightarrow> [] | t # r' \<Rightarrow> splitAt sep r')"
  by (induction l) (auto split: list.splits)

text \<open>A text that begins with a fence is its first line and what the match leaves.\<close>

lemma fence_line:
  assumes "prefix fence s"
  shows "\<exists>l. s = l @ dropWhile (\<lambda>x. \<not> isLineTerminator x) (drop 3 s) \<and> prefix fence l \<and>
             (\<forall>x \<in> set l. \<not> isLineTerminator x)"
proof -
  from assms obtain t where s: "s = fence @ t" by (auto simp: prefix_def)
  let ?l = "fence @ takeWhile (\<lambda>x. \<not> isLineTerminator x) t"
  have "s = ?l @ dropWhile (\<lambda>x. \<not> isLineTerminator x) (drop 3 s)"
    by (simp add: s fence_def)
  moreover have "prefix fence ?l" by simp
  moreover have "\<forall>x \<in> set ?l. \<not> isLineTerminator x"
    by (auto simp: fence_def isLineTerminator_def LF_def CR_def dest: set_takeWhileD)
  ultimately show ?thesis by blast
qed

lemma dropWhile_starts:
  "dropWhile (\<lambda>x. \<not> P x) s = [] \<or> P (hd (dropWhile (\<lambda>x. \<not> P x) s))"
  using hd_dropWhile [of "\<lambda>x. \<not> P x" s] by auto

lemma replaceFences_lines:
  "splitAt isLineTerminator (replaceFences b s) =
     (if b then map blankFence (splitAt isLineTerminator s)
      else (case splitAt isLineTerminator s of
              [] \<Rightarrow> []
            | l # ls \<Rightarrow> l # map blankFence ls))"
proof (induction b s rule: replaceFences.induct)
  case (1 b)
  show ?case by (simp add: blankFence_def)
next
  case (2 b c cs)
  show ?case
  proof (cases "b \<and> prefix fence (c # cs)")
    case True
    define r where "r = dropWhile (\<lambda>x. \<not> isLineTerminator x) (drop 3 (c # cs))"
    from True fence_line [of "c # cs"] obtain l where
      l: "c # cs = l @ r" "prefix fence l" "\<forall>x \<in> set l. \<not> isLineTerminator x"
      unfolding r_def by blast
    have r: "r = [] \<or> isLineTerminator (hd r)"
      unfolding r_def by (rule dropWhile_starts)
    have whole: "splitAt isLineTerminator (c # cs) =
        l # (case r of [] \<Rightarrow> [] | t # r' \<Rightarrow> splitAt isLineTerminator r')"
      unfolding l(1) by (rule splitAt_line [OF l(3) r])
    have ih: "splitAt isLineTerminator (replaceFences False r) =
        (case splitAt isLineTerminator r of [] \<Rightarrow> [] | l # ls \<Rightarrow> l # map blankFence ls)"
      using "2.IH"(1) True unfolding r_def by simp
    have rsplit: "splitAt isLineTerminator r =
        [] # (case r of [] \<Rightarrow> [] | t # r' \<Rightarrow> splitAt isLineTerminator r')"
      using r by (cases r) auto
    have "replaceFences b (c # cs) = replaceFences False r"
      using True unfolding r_def by simp
    then show ?thesis
      using True l(2) by (simp only: whole ih rsplit) (simp add: blankFence_def)
  next
    case False
    then have step: "replaceFences b (c # cs) = c # replaceFences (isLineTerminator c) cs"
      by auto
    have ih: "splitAt isLineTerminator (replaceFences (isLineTerminator c) cs) =
        (if isLineTerminator c then map blankFence (splitAt isLineTerminator cs)
         else (case splitAt isLineTerminator cs of [] \<Rightarrow> [] | l # ls \<Rightarrow> l # map blankFence ls))"
      using "2.IH"(2) False by blast
    show ?thesis
    proof (cases "isLineTerminator c")
      case True
      then show ?thesis using step ih by (simp add: blankFence_def)
    next
      case nt: False
      obtain l ls where sp: "splitAt isLineTerminator cs = l # ls"
        by (cases "splitAt isLineTerminator cs") auto
      have l: "l = takeWhile (\<lambda>x. \<not> isLineTerminator x) cs"
        using sp splitAt_unfold [of isLineTerminator cs] by simp
      have "b \<Longrightarrow> \<not> prefix fence (c # l)"
      proof
        assume b "prefix fence (c # l)"
        moreover have "prefix (c # l) (c # cs)"
          unfolding l by (simp add: takeWhile_is_prefix)
        ultimately have "prefix fence (c # cs)" by (rule_tac prefix_order.trans)
        with False \<open>b\<close> show False by simp
      qed
      then show ?thesis using step ih nt sp by (auto simp: blankFence_def)
    qed
  qed
qed

lemma replaceFences_terminators:
  "filter isLineTerminator (replaceFences b s) = filter isLineTerminator s"
proof (induction b s rule: replaceFences.induct)
  case (1 b)
  show ?case by simp
next
  case (2 b c cs)
  show ?case
  proof (cases "b \<and> prefix fence (c # cs)")
    case True
    define r where "r = dropWhile (\<lambda>x. \<not> isLineTerminator x) (drop 3 (c # cs))"
    from True fence_line [of "c # cs"] obtain l where
      l: "c # cs = l @ r" "prefix fence l" "\<forall>x \<in> set l. \<not> isLineTerminator x"
      unfolding r_def by blast
    have "filter isLineTerminator (c # cs) =
        filter isLineTerminator l @ filter isLineTerminator r"
      unfolding l(1) by simp
    also have "filter isLineTerminator l = []" using l(3) by (simp add: filter_empty_conv)
    finally have "filter isLineTerminator (c # cs) = filter isLineTerminator r" by simp
    moreover have "replaceFences b (c # cs) = replaceFences False r"
      using True unfolding r_def by simp
    moreover have "filter isLineTerminator (replaceFences False r) = filter isLineTerminator r"
      using "2.IH"(1) True unfolding r_def by simp
    ultimately show ?thesis by simp
  next
    case False
    then have "replaceFences b (c # cs) = c # replaceFences (isLineTerminator c) cs" by auto
    then show ?thesis using "2.IH"(2) False by auto
  qed
qed

lemma blankFence_no_fence: "\<not> prefix fence (blankFence l)"
  by (simp add: blankFence_def fence_def)

text \<open>
  C4. For every content of the first message of a non-streamed response,
  \<^verbatim>\<open>getTestContent\<close> returns a text with as many lines, separated by the same line
  terminators: a line of the content that begins with three backquotes has become the
  empty line, every other line is there unchanged and at its place, and so no line of
  the result begins with three backquotes.
\<close>

theorem getTestContent_strips_fences:
  assumes "createChatCompletion rt openai req =
             Inr (Choice (Some (ResponseMessage (Some c))) # others)"
  shows "\<exists>r. fst (getTestContent rt req openai w) = Returned (Some r) \<and>
     splitAt isLineTerminator r = map blankFence (splitAt isLineTerminator c) \<and>
     (\<forall>l \<in> set (splitAt isLineTerminator r). \<not> prefix fence l) \<and>
     filter isLineTerminator r = filter isLineTerminator c"
proof -
  have "fst (getTestContent rt req openai w) = Returned (Some (replaceFences True c))"
    using assms by (simp add: getTestContent_def Let_def)
  moreover have "splitAt isLineTerminator (replaceFences True c) =
      map blankFence (splitAt isLineTerminator c)"
    by (simp add: replaceFences_lines)
  moreover have "\<forall>l \<in> set (splitAt isLineTerminator (replaceFences True c)). \<not> prefix fence l"
    by (auto simp: replaceFences_lines blankFence_no_fence)
  moreover have "filter isLineTerminator (replaceFences True c) = filter isLineTerminator c"
    by (rule replaceFences_terminators)
  ultimately show ?thesis by blast
qed

theorem getTestContent_strips_fences_witness:
  "createChatCompletion working (initOpenAI ''key'') (requestOf sampleArgs ''x'') =
     Inr (Choice (Some (ResponseMessage (Some fencedAnswer))) # []) \<and>
   splitAt isLineTerminator fencedAnswer = [''```ts'', ''test(1)'', ''```''] \<and>
   (\<exists>r. fst (getTestContent working (requestOf sampleArgs ''x'') (initOpenAI ''key'') []) =
          Returned (Some r) \<and>
        splitAt isLineTerminator r = [[], ''test(1)'', []] \<and>
        list_all (\<lambda>l. \<not> prefix fence l) (splitAt isLineTerminator r))"
proof -
  have h: "createChatCompletion working (initOpenAI ''key'') (requestOf sampleArgs ''x'') =
      Inr (Choice (Some (ResponseMessage (Some fencedAnswer))) # [])"
    by (simp add: working_def)
  have s: "splitAt isLineTerminator fencedAnswer = [''```ts'', ''test(1)'', ''```'']"
    by (simp add: fencedAnswer_def isLineTerminator_def LF_def CR_def)
  have b: "map blankFence [''```ts'', ''test(1)'', ''```''] = [[], ''test(1)'', []]"
    by (simp add: blankFence_def fence_def)
  from getTestContent_strips_fences [OF h, of "[]"] obtain r where
    r: "fst (getTestContent working (requestOf sampleArgs ''x'') (initOpenAI ''key'') []) =
          Returned (Some r)"
       "splitAt isLineTerminator r = map blankFence (splitAt isLineTerminator fencedAnswer)"
       "\<forall>l \<in> set (splitAt isLineTerminator r). \<not> prefix fence l"
    by blast
  have "splitAt isLineTerminator r = [[], ''test(1)'', []]"
    using r(2) by (simp only: s b)
  with r(1) r(3) have "\<exists>r. fst (getTestContent working (requestOf sampleArgs ''x'') (initOpenAI ''key'') []) =
          Returned (Some r) \<and>
        splitAt isLineTerminator r = [[], ''test(1)'', []] \<and>
        list_all (\<lambda>l. \<not> prefix fence l) (splitAt isLineTerminator r)"
    unfolding list_all_iff by blast
  with h s show ?thesis by blast
qed

section \<open>The streamed answer\<close>

lemma handled_Nil [simp]: "handled parse [] = []"
  by (simp add: handled_def)

lemma stopOf_Nil [simp]: "stopOf parse [] = Returned ()"
  by (simp add: stopOf_def)

lemma handled_Cons:
  "handled parse (m # ms) =
     (if m \<noteq> ''[DONE]'' \<and> decodes parse m then m # handled parse ms else [])"
  by (simp add: handled_def)

lemma stopOf_Cons:
  "stopOf parse (m # ms) =
     (if m = ''[DONE]'' then Returned ()
      else (case parse m of Inl err \<Rightarrow> Thrown err | Inr token \<Rightarrow> stopOf parse ms))"
  by (simp add: stopOf_def decodes_def split: sum.splits)

lemma handled_append:
  "handled parse (a @ b) = (if handled parse a = a then a @ handled parse b else handled parse a)"
  by (induction a) (auto simp: handled_Cons)

lemma stopOf_append:
  "stopOf parse (a @ b) = (if handled parse a = a then stopOf parse b else stopOf parse a)"
  by (induction a) (auto simp: handled_Cons stopOf_Cons decodes_def split: sum.splits)

lemma tokensOf_append: "tokensOf parse (a @ b) = tokensOf parse a @ tokensOf parse b"
  by (simp add: tokensOf_def)

lemma payloads_Cons: "payloads (c # cs) = map dataPayload (dataLines c) @ payloads cs"
  by (simp add: payloads_def)

lemma deliver_append:
  "deliver f (ts @ us) s =
     (if fst (deliver f ts s) = Returned () then deliver f us (snd (deliver f ts s))
      else deliver f ts s)"
  by (induction ts arbitrary: s) (auto split: prod.splits completion.splits)

text \<open>
  The inner loop on the lines of a chunk: the tokens of the messages it gets through go
  to the callback; the outer loop goes on when it got through all of them.
\<close>

lemma streamLines_handled:
  "streamLines parse f ls s =
     (let d = deliver f (tokensOf parse (handled parse (map dataPayload ls))) s
      in (if fst d = Returned ()
          then (if handled parse (map dataPayload ls) = map dataPayload ls then None
                else Some (stopOf parse (map dataPayload ls)))
          else Some (fst d), snd d))"
proof (induction ls arbitrary: s)
  case Nil
  show ?case by (simp add: tokensOf_def)
next
  case (Cons l ls)
  show ?case
    unfolding streamLines.simps Cons.IH
    by (auto simp: Let_def handled_Cons stopOf_Cons tokensOf_def tokenOf_def decodes_def
             split: sum.splits option.splits prod.splits completion.splits)
qed

text \<open>The two loops together, on the messages of all chunks.\<close>

lemma streamChunks_handled:
  "streamChunks parse f chunks s =
     (let d = deliver f (tokensOf parse (handled parse (payloads chunks))) s
      in (if fst d = Returned () then stopOf parse (payloads chunks) else fst d, snd d))"
proof (induction chunks arbitrary: s)
  case Nil
  show ?case by (simp add: payloads_def tokensOf_def)
next
  case (Cons c cs)
  show ?case
    unfolding streamChunks.simps streamLines_handled Cons.IH payloads_Cons
    by (auto simp: Let_def handled_append stopOf_append tokensOf_append deliver_append
             split: prod.splits)
qed

lemma handled_beforeDone:
  "\<forall>m \<in> set (beforeDone msgs). decodes parse m \<Longrightarrow>
   handled parse msgs = beforeDone msgs \<and> stopOf parse msgs = Returned ()"
  by (induction msgs)
     (auto simp: handled_Cons stopOf_Cons beforeDone_def decodes_def split: sum.splits)

text \<open>
  C3, as the code has it. For every sequence of streamed chunks in which each data line
  in front of the first terminator decodes (neither \<^verbatim>\<open>JSON.parse\<close> nor the access to the
  delta throws), \<^verbatim>\<open>streamTestContent\<close> stops at the terminator: it calls \<open>onToken\<close>, in
  order and for as long as \<open>onToken\<close> returns, on every non-empty token of the data lines
  in front of the first line whose payload is \<^verbatim>\<open>[DONE]\<close>, on no token of a later line,
  and it returns.
\<close>

theorem streamTestContent_stops_at_terminator:
  assumes "createChatCompletionStream rt openai req = Inr chunks"
    and "\<forall>m \<in> set (beforeDone (payloads chunks)). decodes (jsonDeltaContent rt) m"
  shows "streamTestContent rt req openai onToken w =
     deliver onToken (tokensOf (jsonDeltaContent rt) (beforeDone (payloads chunks)))
       (w @ [CreateChatCompletion openai req True])"
  using assms(1) handled_beforeDone [OF assms(2)]
  by (simp add: streamTestContent_def Let_def streamChunks_handled prod_eq_iff)

lemma payloads_wholeChunks:
  "payloads wholeChunks = [deltaRole, deltaHi, deltaBang, ''[DONE]'', deltaHi]"
  by code_simp

lemma payloads_cutChunks:
  \<open>payloads cutChunks = [deltaHi, ''{"choices":[{"del'', deltaBang, ''[DONE]'']\<close>
  by code_simp

lemma jsonSample_values:
  \<open>jsonSample deltaRole = Inr None \<and> jsonSample deltaHi = Inr (Some ''Hi'') \<and>
   jsonSample deltaBang = Inr (Some ''!'') \<and>
   jsonSample ''{"choices":[{"del'' = Inl (JsError ''SyntaxError: Unexpected end of JSON input'') \<and>
   deltaRole \<noteq> ''[DONE]'' \<and> deltaHi \<noteq> ''[DONE]'' \<and> deltaBang \<noteq> ''[DONE]''\<close>
  by code_simp

theorem streamTestContent_stops_at_terminator_witness:
  "createChatCompletionStream working (initOpenAI ''key'') (requestOf sampleArgs ''x'') =
     Inr wholeChunks \<and>
   beforeDone (payloads wholeChunks) = [deltaRole, deltaHi, deltaBang] \<and>
   decodes (jsonDeltaContent working) deltaRole \<and>
   decodes (jsonDeltaContent working) deltaHi \<and>
   decodes (jsonDeltaContent working) deltaBang \<and>
   streamTestContent working (requestOf sampleArgs ''x'') (initOpenAI ''key'') logToken [] =
     (Returned (),
      [CreateChatCompletion (initOpenAI ''key'') (requestOf sampleArgs ''x'') True,
       ConsoleLog Plain ''Hi'', ConsoleLog Plain ''!''])"
proof -
  have h1: "createChatCompletionStream working (initOpenAI ''key'') (requestOf sampleArgs ''x'') =
      Inr wholeChunks"
    by (simp add: working_def)
  have b: "beforeDone (payloads wholeChunks) = [deltaRole, deltaHi, deltaBang]"
    using jsonSample_values by (simp add: payloads_wholeChunks beforeDone_def)
  have j: "jsonDeltaContent working = jsonSample"
    by (simp add: working_def)
  have h2: "\<forall>m \<in> set (beforeDone (payloads wholeChunks)). decodes (jsonDeltaContent working) m"
    using jsonSample_values by (simp add: b j decodes_def)
  have t: "tokensOf (jsonDeltaContent working) [deltaRole, deltaHi, deltaBang] = [''Hi'', ''!'']"
    using jsonSample_values by (simp add: j tokensOf_def tokenOf_def)
  from streamTestContent_stops_at_terminator [OF h1 h2, of logToken "[]"] h1 h2 b show ?thesis
    by (simp add: t logToken_def)
qed

text \<open>
  C3, as the claim states it, fails: in a stream whose second delta arrives cut over two
  chunks, the first half does not decode. The function throws there: the delta behind
  it, which stands in front of the terminator, never reaches the callback, and the
  function does not return.
\<close>

theorem streamTestContent_cut_counterexample:
  "createChatCompletionStream cutStream (initOpenAI ''key'') (requestOf sampleArgs ''x'') =
     Inr cutChunks \<and>
   streamTestContent cutStream (requestOf sampleArgs ''x'') (initOpenAI ''key'') logToken [] =
     (Thrown (JsError ''SyntaxError: Unexpected end of JSON input''),
      [CreateChatCompletion (initOpenAI ''key'') (requestOf sampleArgs ''x'') True,
       ConsoleLog Plain ''Hi'']) \<and>
   deliver logToken (tokensOf (jsonDeltaContent cutStream) (beforeDone (payloads cutChunks)))
       [CreateChatCompletion (initOpenAI ''key'') (requestOf sampleArgs ''x'') True] =
     (Returned (),
      [CreateChatCompletion (initOpenAI ''key'') (requestOf sampleArgs ''x'') True,
       ConsoleLog Plain ''Hi'', ConsoleLog Plain ''!'']) \<and>
   streamTestContent cutStream (requestOf sampleArgs ''x'') (initOpenAI ''key'') logToken [] \<noteq>
     deliver logToken (tokensOf (jsonDeltaContent cutStream) (beforeDone (payloads cutChunks)))
       [CreateChatCompletion (initOpenAI ''key'') (requestOf sampleArgs ''x'') True]"
proof -
  have j: "jsonDeltaContent cutStream = jsonSample"
    by (simp add: cutStream_def working_def)
  have c: "createChatCompletionStream cutStream (initOpenAI ''key'') (requestOf sampleArgs ''x'') =
      Inr cutChunks"
    by (simp add: cutStream_def)
  have run: "streamTestContent cutStream (requestOf sampleArgs ''x'') (initOpenAI ''key'') logToken [] =
     (Thrown (JsError ''SyntaxError: Unexpected end of JSON input''),
      [CreateChatCompletion (initOpenAI ''key'') (requestOf sampleArgs ''x'') True,
       ConsoleLog Plain ''Hi''])"
    using jsonSample_values
    by (simp add: streamTestContent_def c j streamChunks_handled payloads_cutChunks handled_Cons
          stopOf_Cons decodes_def tokensOf_def tokenOf_def logToken_def)
  have claim: "deliver logToken (tokensOf (jsonDeltaContent cutStream) (beforeDone (payloads cutChunks)))
       [CreateChatCompletion (initOpenAI ''key'') (requestOf sampleArgs ''x'') True] =
     (Returned (),
      [CreateChatCompletion (initOpenAI ''key'') (requestOf sampleArgs ''x'') True,
       ConsoleLog Plain ''Hi'', ConsoleLog Plain ''!''])"
    using jsonSample_values
    by (simp add: j payloads_cutChunks beforeDone_def tokensOf_def tokenOf_def logToken_def)
  show ?thesis
    unfolding run claim using c by simp
qed

section \<open>The whole run\<close>

lemma deliver_writeToFile:
  "fst (deliver (\<lambda>t. writeToFile rt p (Some t) (Some True)) ts w) = Returned () \<and>
   writesOf (snd (deliver (\<lambda>t. writeToFile rt p (Some t) (Some True)) ts w)) =
     writesOf w @ map (\<lambda>t. WriteFileSync p (Some t) FlagA) ts"
proof (induction ts arbitrary: w)
  case Nil
  show ?case by simp
next
  case (Cons t ts)
  obtain w' where w': "writeToFile rt p (Some t) (Some True) w = (Returned (), w')"
    using writeToFile_returns [of rt p "Some t" "Some True" w]
    by (cases "writeToFile rt p (Some t) (Some True) w") auto
  have "writesOf w' = writesOf w @ [WriteFileSync p (Some t) FlagA]"
    using writeToFile_writes [of rt p "Some t" "Some True" w] w' by (simp add: flagOf_def)
  then show ?case using Cons.IH [of w'] w' by simp
qed

lemma generate_completion: "fst (generate rt args c w) = completionBy rt args c"
  by (auto simp: generate_def completionBy_def Let_def streamTestContent_def getTestContent_def
        streamChunks_handled deliver_writeToFile writeToFile_returns
      split: sum.splits list.splits option.splits)

lemma generate_writes: "writesOf (snd (generate rt args c w)) = writesOf w @ writesBy rt args c"
  by (auto simp: generate_def writesBy_def Let_def streamTestContent_def getTestContent_def
        streamChunks_handled deliver_writeToFile writeToFile_writes flagOf_def
      split: sum.splits list.splits option.splits)
    (simp_all add: writesOf_def)

lemma autoTest_completion: "fst (autoTest rt args w) = completionBy rt args (inputOf rt args)"
  by (simp add: autoTest_def Let_def readFile_returns generate_completion inputOf_def)

lemma autoTest_writes:
  "writesOf (snd (autoTest rt args w)) = writesOf w @ writesBy rt args (inputOf rt args)"
  by (simp add: autoTest_def Let_def readFile_returns generate_writes inputOf_def)
     (simp add: writesOf_def split: sum.splits)

lemma writesBy_write_outcome [simp]:
  "writesBy (rt\<lparr>fsWriteFileSync := f\<rparr>) args c = writesBy rt args c"
  by (simp add: writesBy_def cong: sum.case_cong)

lemma completionBy_write_outcome [simp]:
  "completionBy (rt\<lparr>fsWriteFileSync := f\<rparr>) args c = completionBy rt args c"
  by (simp add: completionBy_def cong: sum.case_cong)

lemma inputOf_write_outcome [simp]:
  "inputOf (rt\<lparr>fsWriteFileSync := f\<rparr>) args = inputOf rt args"
  by (simp add: inputOf_def)

text \<open>No run of \<^verbatim>\<open>autoTest\<close> ends in \<^verbatim>\<open>process.exit\<close>.\<close>

lemma autoTest_never_exits: "fst (autoTest rt args w) \<noteq> Exited n"
  by (auto simp: autoTest_completion completionBy_def stopOf_def
      split: sum.splits list.splits option.splits)

lemma sample_values:
  "replaceFences True fencedAnswer = [LF] @ ''test(1)'' @ [LF] \<and>
   handled jsonSample (payloads wholeChunks) = [deltaRole, deltaHi, deltaBang] \<and>
   tokensOf jsonSample [deltaRole, deltaHi, deltaBang] = [''Hi'', ''!'']"
  by code_simp

text \<open>
  C1. The claim says that \<^verbatim>\<open>autoTest\<close> exits with code 1, and does nothing more, when the
  read of the input file throws. The run below is the one of the code for an input file
  that is not there: \<^verbatim>\<open>readFile\<close> has caught the error and returned the empty string, so
  the handler of \<^verbatim>\<open>autoTest\<close> with its \<^verbatim>\<open>process.exit(1)\<close> is not reached; the prompt is
  built for the empty content, the API is called, the answer is written and the function
  returns.
\<close>

theorem autoTest_missing_file_run:
  "autoTest missingFile sampleArgs [] =
     (Returned (),
      [ConsoleLog Blue ''Reading input file...'',
       ReadFileSync ''a.ts'',
       ConsoleError Plain ''Error reading file: Error: ENOENT: no such file or directory'',
       ConsoleLog Blue ''Generating tests...'',
       CreateChatCompletion (initOpenAI ''key'') (requestOf sampleArgs []) False,
       WriteFileSync ''a.test.ts'' (Some ([LF] @ ''test(1)'' @ [LF])) FlagW,
       ConsoleLog Green ''Successfully wrote to file: a.test.ts''])"
proof -
  have r: "readFile missingFile (inputFile sampleArgs) [ConsoleLog Blue ''Reading input file...''] =
      (Returned [],
       [ConsoleLog Blue ''Reading input file...'', ReadFileSync ''a.ts'',
        ConsoleError Plain ''Error reading file: Error: ENOENT: no such file or directory''])"
    by (simp add: readFile_def missingFile_def sampleArgs_def)
  have a: "createChatCompletion missingFile (initOpenAI ''key'') (requestOf sampleArgs []) =
      Inr [Choice (Some (ResponseMessage (Some fencedAnswer)))]"
    by (simp add: missingFile_def working_def)
  have f: "fsWriteFileSync missingFile = (\<lambda>w path c f. None)"
    by (simp add: missingFile_def working_def)
  have s: "stream sampleArgs = None" "apiKey sampleArgs = ''key''"
      "outputFile sampleArgs = ''a.test.ts''"
    by (simp_all add: sampleArgs_def)
  show ?thesis
    using sample_values
    by (simp add: autoTest_def r generate_def s getTestContent_def a writeToFile_def f flagOf_def)
qed

text \<open>
  C7. When the streaming flag is false or absent, the one write of \<^verbatim>\<open>autoTest\<close> is the
  answer of the API with flag \<^verbatim>\<open>w\<close>; when the flag is true, \<^verbatim>\<open>autoTest\<close> writes once per
  token received, in the order of arrival, each with flag \<^verbatim>\<open>a\<close>. The tokens received are
  those of the data lines in front of the terminator, or in front of the first line
  that does not decode.
\<close>

theorem autoTest_write_flags:
  "(stream args = Some True \<longrightarrow>
      createChatCompletionStream rt (initOpenAI (apiKey args)) (requestOf args (inputOf rt args))
        = Inr chunks \<longrightarrow>
      writesOf (snd (autoTest rt args w)) =
        writesOf w @
          map (\<lambda>t. WriteFileSync (outputFile args) (Some t) FlagA)
            (tokensOf (jsonDeltaContent rt) (handled (jsonDeltaContent rt) (payloads chunks)))) \<and>
   (stream args \<noteq> Some True \<longrightarrow>
      createChatCompletion rt (initOpenAI (apiKey args)) (requestOf args (inputOf rt args))
        = Inr (Choice (Some (ResponseMessage c)) # others) \<longrightarrow>
      writesOf (snd (autoTest rt args w)) =
        writesOf w @
          [WriteFileSync (outputFile args) (map_option (replaceFences True) c) FlagW])"
  by (simp add: autoTest_writes writesBy_def)

theorem autoTest_write_flags_witness:
  "stream streamArgs = Some True \<and>
   createChatCompletionStream working (initOpenAI (apiKey streamArgs))
     (requestOf streamArgs (inputOf working streamArgs)) = Inr wholeChunks \<and>
   writesOf (snd (autoTest working streamArgs [])) =
     [WriteFileSync ''a.test.ts'' (Some ''Hi'') FlagA,
      WriteFileSync ''a.test.ts'' (Some ''!'') FlagA] \<and>
   stream sampleArgs \<noteq> Some True \<and>
   createChatCompletion working (initOpenAI (apiKey sampleArgs))
     (requestOf sampleArgs (inputOf working sampleArgs)) =
     Inr (Choice (Some (ResponseMessage (Some fencedAnswer))) # []) \<and>
   writesOf (snd (autoTest working sampleArgs [])) =
     [WriteFileSync ''a.test.ts'' (Some ([LF] @ ''test(1)'' @ [LF])) FlagW]"
proof -
  have s1: "stream streamArgs = Some True" "outputFile streamArgs = ''a.test.ts''"
    by (simp_all add: streamArgs_def sampleArgs_def)
  have s2: "stream sampleArgs \<noteq> Some True" "outputFile sampleArgs = ''a.test.ts''"
    by (simp_all add: sampleArgs_def)
  have c1: "createChatCompletionStream working (initOpenAI (apiKey streamArgs))
      (requestOf streamArgs (inputOf working streamArgs)) = Inr wholeChunks"
    by (simp add: working_def)
  have c2: "createChatCompletion working (initOpenAI (apiKey sampleArgs))
      (requestOf sampleArgs (inputOf working sampleArgs)) =
      Inr (Choice (Some (ResponseMessage (Some fencedAnswer))) # [])"
    by (simp add: working_def)
  have j: "jsonDeltaContent working = jsonSample"
    by (simp add: working_def)
  have w1: "writesOf (snd (autoTest working streamArgs [])) =
      [WriteFileSync ''a.test.ts'' (Some ''Hi'') FlagA,
       WriteFileSync ''a.test.ts'' (Some ''!'') FlagA]"
    using autoTest_write_flags [of streamArgs working wholeChunks "[]", THEN conjunct1] s1 c1
      sample_values
    by (simp add: j writesOf_def)
  have w2: "writesOf (snd (autoTest working sampleArgs [])) =
      [WriteFileSync ''a.test.ts'' (Some ([LF] @ ''test(1)'' @ [LF])) FlagW]"
    using autoTest_write_flags [of sampleArgs working wholeChunks "[]" "Some fencedAnswer" "[]",
        THEN conjunct2] s2 c2 sample_values
    by (simp add: writesOf_def)
  show ?thesis using s1 s2 c1 c2 w1 w2 by blast
qed

text \<open>
  C8. For every path and content, when the write of the file throws, \<^verbatim>\<open>writeToFile\<close>
  logs the error and returns; it returns in every case, so nothing propagates to its
  caller. \<^verbatim>\<open>autoTest\<close> goes on as if the write had worked: how it completes and what it
  writes, in order, are the same whatever the outcomes of the writes are.
\<close>

theorem writeToFile_swallows_failure:
  "(fsWriteFileSync rt w path c (flagOf a) = Some err \<longrightarrow>
      writeToFile rt path c a w =
        (Returned (),
         w @ [WriteFileSync path c (flagOf a),
              ConsoleError Plain (''Error writing to file: '' @ render err)])) \<and>
   fst (writeToFile rt path c a w) = Returned () \<and>
   fst (autoTest (rt\<lparr>fsWriteFileSync := f\<rparr>) args w) = fst (autoTest rt args w) \<and>
   writesOf (snd (autoTest (rt\<lparr>fsWriteFileSync := f\<rparr>) args w)) =
     writesOf (snd (autoTest rt args w))"
  by (simp add: autoTest_completion autoTest_writes writeToFile_returns)
     (simp add: writeToFile_def)

theorem writeToFile_swallows_failure_witness:
  "fsWriteFileSync readOnlyDisk [] ''a.test.ts'' (Some ''Hi'') (flagOf (Some True)) =
     Some (JsError ''Error: EACCES: permission denied'') \<and>
   writeToFile readOnlyDisk ''a.test.ts'' (Some ''Hi'') (Some True) [] =
     (Returned (),
      [WriteFileSync ''a.test.ts'' (Some ''Hi'') FlagA,
       ConsoleError Plain ''Error writing to file: Error: EACCES: permission denied'']) \<and>
   fst (autoTest readOnlyDisk streamArgs []) = fst (autoTest working streamArgs []) \<and>
   writesOf (snd (autoTest readOnlyDisk streamArgs [])) =
     writesOf (snd (autoTest working streamArgs []))"
proof -
  have h: "fsWriteFileSync readOnlyDisk [] ''a.test.ts'' (Some ''Hi'') (flagOf (Some True)) =
      Some (JsError ''Error: EACCES: permission denied'')"
    by (simp add: readOnlyDisk_def)
  have "writeToFile readOnlyDisk ''a.test.ts'' (Some ''Hi'') (Some True) [] =
      (Returned (),
       [WriteFileSync ''a.test.ts'' (Some ''Hi'') (flagOf (Some True)),
        ConsoleError Plain
          (''Error writing to file: '' @ render (JsError ''Error: EACCES: permission denied''))])"
    using writeToFile_swallows_failure
      [of readOnlyDisk "[]" "''a.test.ts''" "Some ''Hi''" "Some True"
          "JsError ''Error: EACCES: permission denied''", THEN conjunct1] h
    by simp
  then have w: "writeToFile readOnlyDisk ''a.test.ts'' (Some ''Hi'') (Some True) [] =
      (Returned (),
       [WriteFileSync ''a.test.ts'' (Some ''Hi'') FlagA,
        ConsoleError Plain ''Error writing to file: Error: EACCES: permission denied''])"
    by (simp add: flagOf_def)
  have "fst (autoTest readOnlyDisk streamArgs []) = fst (autoTest working streamArgs []) \<and>
      writesOf (snd (autoTest readOnlyDisk streamArgs [])) =
        writesOf (snd (autoTest working streamArgs []))"
    unfolding readOnlyDisk_def
    using writeToFile_swallows_failure
      [of working "[]" "[]" None None "JsError []"
          "\<lambda>w path c f. Some (JsError ''Error: EACCES: permission denied'')" streamArgs]
    by blast
  with h w show ?thesis by blast
qed

end
